theory Spec2Isabelle
  imports Main "HOL-Library.Sublist"
begin

section \<open>Errors\<close>

text \<open>
  The exceptions that the Python code can raise become values. \<open>IndexError\<close> and
  \<open>ZeroDivisionError\<close> are Python's own; \<open>ReError\<close> is \<^verbatim>\<open>re.error\<close>, raised by
  \<^verbatim>\<open>re.match\<close> and \<^verbatim>\<open>re.fullmatch\<close> when the pattern does not compile;
  \<open>RecursionError\<close> is raised only by the depth-bounded variant of the solver.
  \<open>Unsupported\<close> is not a Python exception: it marks a pattern or text outside the
  fragment of \<^verbatim>\<open>re\<close> that this development models, where nothing is asserted.
  \<open>InvalidPatternError\<close> and \<open>MalformedPuzzleError\<close> are the loader's errors.
\<close>

datatype error =
    IndexError
  | ZeroDivisionError
  | ReError
  | RecursionError
  | Unsupported
  | InvalidPatternError
  | MalformedPuzzleError

section \<open>The fragment of Python's \<^verbatim>\<open>re\<close> module\<close>

text \<open>
  Patterns of the fragment: literal characters, \<^verbatim>\<open>.\<close>, the postfix quantifiers
  \<^verbatim>\<open>*\<close>, \<^verbatim>\<open>+\<close>, \<^verbatim>\<open>?\<close>, alternation \<^verbatim>\<open>|\<close> and groups
  \<^verbatim>\<open>( )\<close>. For these, a match object exists exactly when some string of the
  pattern's language is found, so the boolean results of \<^verbatim>\<open>re.match\<close> and
  \<^verbatim>\<open>re.fullmatch\<close> are decided by the language alone.
\<close>

datatype regex =
    Never
  | Empty
  | Lit char
  | AnyChar
  | Cat regex regex
  | Alt regex regex
  | Star regex

fun nullable :: "regex \<Rightarrow> bool" where
  "nullable Never = False"
| "nullable Empty = True"
| "nullable (Lit c) = False"
| "nullable AnyChar = False"
| "nullable (Cat r s) = (nullable r \<and> nullable s)"
| "nullable (Alt r s) = (nullable r \<or> nullable s)"
| "nullable (Star r) = True"

text \<open>The derivative of a pattern by one character; \<^verbatim>\<open>.\<close> matches any character
  but the newline (no flag is passed).\<close>

fun deriv :: "char \<Rightarrow> regex \<Rightarrow> regex" where
  "deriv c Never = Never"
| "deriv c Empty = Never"
| "deriv c (Lit d) = (if c = d then Empty else Never)"
| "deriv c AnyChar = (if c = CHR 0x0A then Never else Empty)"
| "deriv c (Cat r s) =
     (if nullable r then Alt (Cat (deriv c r) s) (deriv c s) else Cat (deriv c r) s)"
| "deriv c (Alt r s) = Alt (deriv c r) (deriv c s)"
| "deriv c (Star r) = Cat (deriv c r) (Star r)"

text \<open>\<open>matches_whole r s\<close>: the whole of \<open>s\<close> is in the language of \<open>r\<close>.
  \<open>matches_start r s\<close>: some prefix of \<open>s\<close> is.\<close>

fun matches_whole :: "regex \<Rightarrow> string \<Rightarrow> bool" where
  "matches_whole r [] = nullable r"
| "matches_whole r (c # cs) = matches_whole (deriv c r) cs"

fun matches_start :: "regex \<Rightarrow> string \<Rightarrow> bool" where
  "matches_start r [] = nullable r"
| "matches_start r (c # cs) = (nullable r \<or> matches_start (deriv c r) cs)"

subsection \<open>Compiling a pattern string\<close>

text \<open>
  The parser reads the pattern left to right with a stack of open groups. A frame holds
  the finished alternatives of its group and the items of the current alternative (both
  most recent first), and whether the last item already carries a quantifier.
\<close>

type_synonym frame = "regex list \<times> regex list \<times> bool"

definition seq_of :: "regex list \<Rightarrow> regex" where
  "seq_of items = foldl (\<lambda>acc r. Cat r acc) Empty items"

definition close_frame :: "frame \<Rightarrow> regex" where
  "close_frame f =
     (case f of (alts, items, q) \<Rightarrow> foldl (\<lambda>acc r. Alt r acc) (seq_of items) alts)"

definition quantify :: "char \<Rightarrow> regex \<Rightarrow> regex" where
  "quantify c r =
     (if c = CHR ''*'' then Star r
      else if c = CHR ''+'' then Cat r (Star r)
      else Alt r Empty)"

definition is_ascii :: "char \<Rightarrow> bool" where
  "is_ascii c = (of_char c < (128 :: nat))"

text \<open>Characters whose meaning in \<^verbatim>\<open>re\<close> lies outside the fragment: classes,
  counted repetition, escapes and anchors; and bytes beyond ASCII, since a \<open>char\<close> is a
  byte where Python's \<^verbatim>\<open>str\<close> holds code points.\<close>

definition outside_fragment :: "char \<Rightarrow> bool" where
  "outside_fragment c =
     (c = CHR ''['' \<or> c = CHR ''{'' \<or> c = CHR 0x5C \<or> c = CHR ''^'' \<or> c = CHR ''$''
      \<or> \<not> is_ascii c)"

fun re_parse :: "frame list \<Rightarrow> string \<Rightarrow> error + regex" where
  "re_parse [] cs = Inl ReError"
| "re_parse [f] [] = Inr (close_frame f)"
| "re_parse (f # g # fs) [] = Inl ReError"
| "re_parse ((alts, items, q) # fs) (c # cs) =
     (if c = CHR ''('' then re_parse (([], [], False) # (alts, items, q) # fs) cs
      else if c = CHR '')'' then
        (case fs of
           [] \<Rightarrow> Inl ReError
         | (alts', items', q') # fs' \<Rightarrow>
             re_parse ((alts', close_frame (alts, items, q) # items', False) # fs') cs)
      else if c = CHR ''|'' then re_parse ((seq_of items # alts, [], False) # fs) cs
      else if c = CHR ''*'' \<or> c = CHR ''+'' \<or> c = CHR ''?'' then
        (case items of
           [] \<Rightarrow>
             if c = CHR ''?'' \<and> alts = [] \<and> fs \<noteq> [] then Inl Unsupported
             else Inl ReError
         | r # items' \<Rightarrow>
             if q then Inl Unsupported
             else re_parse ((alts, quantify c r # items', True) # fs) cs)
      else if c = CHR ''.'' then re_parse ((alts, AnyChar # items, False) # fs) cs
      else if outside_fragment c then Inl Unsupported
      else re_parse ((alts, Lit c # items, False) # fs) cs)"

definition re_compile :: "string \<Rightarrow> error + regex" where
  "re_compile pattern = re_parse [([], [], False)] pattern"

text \<open>\<^verbatim>\<open>re.match(pattern, text) is not None\<close> and
  \<^verbatim>\<open>re.fullmatch(pattern, text) is not None\<close>. The pattern is compiled first, so an
  ill-formed pattern raises whatever the text is.\<close>

definition re_match :: "string \<Rightarrow> string \<Rightarrow> error + bool" where
  "re_match pattern text =
     (case re_compile pattern of
        Inl e \<Rightarrow> Inl e
      | Inr r \<Rightarrow> if list_all is_ascii text then Inr (matches_start r text) else Inl Unsupported)"

definition re_fullmatch :: "string \<Rightarrow> string \<Rightarrow> error + bool" where
  "re_fullmatch pattern text =
     (case re_compile pattern of
        Inl e \<Rightarrow> Inl e
      | Inr r \<Rightarrow> if list_all is_ascii text then Inr (matches_whole r text) else Inl Unsupported)"

section \<open>\<^verbatim>\<open>solver/regex_engine.py\<close>\<close>

text \<open>Python's \<^verbatim>\<open>sub in text\<close> on strings: \<open>sub\<close> occurs in \<open>text\<close> as a
  contiguous substring.\<close>

fun str_contains :: "string \<Rightarrow> string \<Rightarrow> bool" where
  "str_contains sub [] = (sub = [])"
| "str_contains sub (c # cs) = (prefix sub (c # cs) \<or> str_contains sub cs)"

text \<open>
  \<^verbatim>\<open>
  def check_regex(pattern, text):
      if "" in text:
          return re.match(pattern, text) is not None
      return re.fullmatch(pattern, text) is not None
  \<close>
\<close>

definition check_regex :: "string \<Rightarrow> string \<Rightarrow> error + bool" where
  "check_regex pattern text =
     (if str_contains [] text then re_match pattern text else re_fullmatch pattern text)"

section \<open>Python lists and the grid\<close>

text \<open>Python's \<^verbatim>\<open>xs[i]\<close>: a negative index counts from the end, an index out of
  range raises \<^verbatim>\<open>IndexError\<close>.\<close>

definition py_norm :: "'a list \<Rightarrow> int \<Rightarrow> int" where
  "py_norm xs i = (if i < 0 then int (length xs) + i else i)"

definition py_index :: "'a list \<Rightarrow> int \<Rightarrow> error + 'a" where
  "py_index xs i =
     (let j = py_norm xs i
      in if 0 \<le> j \<and> j < int (length xs) then Inr (xs ! nat j) else Inl IndexError)"

text \<open>Python's \<^verbatim>\<open>xs[i] = v\<close>.\<close>

definition py_assign :: "'a list \<Rightarrow> int \<Rightarrow> 'a \<Rightarrow> error + 'a list" where
  "py_assign xs i v =
     (let j = py_norm xs i
      in if 0 \<le> j \<and> j < int (length xs) then Inr (xs[nat j := v]) else Inl IndexError)"

text \<open>
  The grid is a list of rows, each a list of cells; a cell is a string, the empty string
  for an unset cell. The rows are separate lists (no two rows are the same object), so
  the in-place update \<^verbatim>\<open>grid[row][col] = v\<close> is the grid with that one cell replaced.
\<close>

type_synonym grid = "string list list"

definition set_cell :: "grid \<Rightarrow> int \<Rightarrow> int \<Rightarrow> string \<Rightarrow> error + grid" where
  "set_cell g row col v =
     (case py_index g row of
        Inl e \<Rightarrow> Inl e
      | Inr cells \<Rightarrow>
          (case py_assign cells col v of
             Inl e \<Rightarrow> Inl e
           | Inr cells' \<Rightarrow> py_assign g row cells'))"

text \<open>\<^verbatim>\<open>"".join(grid[row])\<close>\<close>

definition row_string :: "grid \<Rightarrow> int \<Rightarrow> error + string" where
  "row_string g row =
     (case py_index g row of Inl e \<Rightarrow> Inl e | Inr cells \<Rightarrow> Inr (concat cells))"

text \<open>\<^verbatim>\<open>[grid[r][col] for r in range(size)]\<close>, over the list of the values of
  \<^verbatim>\<open>r\<close>.\<close>

fun col_cells :: "grid \<Rightarrow> int \<Rightarrow> int list \<Rightarrow> error + string list" where
  "col_cells g col [] = Inr []"
| "col_cells g col (r # rs) =
     (case py_index g r of
        Inl e \<Rightarrow> Inl e
      | Inr cells \<Rightarrow>
          (case py_index cells col of
             Inl e \<Rightarrow> Inl e
           | Inr c \<Rightarrow>
               (case col_cells g col rs of
                  Inl e \<Rightarrow> Inl e
                | Inr cs \<Rightarrow> Inr (c # cs))))"

text \<open>\<^verbatim>\<open>range(size)\<close>: empty when \<open>size \<le> 0\<close>.\<close>

definition py_range :: "int \<Rightarrow> int list" where
  "py_range n = map int [0..<nat n]"

definition col_string :: "grid \<Rightarrow> int \<Rightarrow> int \<Rightarrow> error + string" where
  "col_string g n col =
     (case col_cells g col (py_range n) of Inl e \<Rightarrow> Inl e | Inr cs \<Rightarrow> Inr (concat cs))"

section \<open>\<^verbatim>\<open>solver/backtracking.py\<close>\<close>

text \<open>The puzzle dictionary, with the four keys that the solver reads. Any further keys
  of the dictionary are the record's extension.\<close>

record puzzle =
  size :: int
  alphabet :: "string list"
  row_regex :: "string list"
  col_regex :: "string list"

text \<open>
  \<^verbatim>\<open>
  def solve(grid, puzzle, row=0, col=0):
      size = puzzle["size"]
      if row == size:
          return True
      next_row = row + (col+1)//size
      next_col = (col+1)%size
      for letter in puzzle["alphabet"]:
          grid[row][col] = letter
          row_string = "".join(grid[row])
          col_string = "".join([grid[r][col] for r in range(size)])
          if check_regex(puzzle["row_regex"][row], row_string):
              if check_regex(puzzle["col_regex"][col], col_string):
                  if solve(grid, puzzle, next_row, next_col):
                      return True
      grid[row][col] = ""
      return False
  \<close>
  The function mutates the grid and returns a flag; the model returns the flag together
  with the grid as the call leaves it, or the exception raised.

  \<open>try_letters\<close> is the \<^verbatim>\<open>for\<close> loop with the two statements after it, as a
  recursion over the letters still to try. \<open>rec\<close> is the recursive call
  \<^verbatim>\<open>solve(grid, puzzle, next_row, next_col)\<close> on the grid as it is at that moment.
\<close>

fun try_letters ::
  "(grid \<Rightarrow> error + bool \<times> grid) \<Rightarrow> 'a puzzle_scheme \<Rightarrow> string list \<Rightarrow> grid \<Rightarrow> int \<Rightarrow> int
     \<Rightarrow> error + bool \<times> grid" where
  "try_letters rec p [] g row col =
     (case set_cell g row col [] of
        Inl e \<Rightarrow> Inl e
      | Inr g' \<Rightarrow> Inr (False, g'))"
| "try_letters rec p (letter # letters) g row col =
     (case set_cell g row col letter of
        Inl e \<Rightarrow> Inl e
      | Inr g1 \<Rightarrow>
     (case row_string g1 row of
        Inl e \<Rightarrow> Inl e
      | Inr row_str \<Rightarrow>
     (case col_string g1 (size p) col of
        Inl e \<Rightarrow> Inl e
      | Inr col_str \<Rightarrow>
     (case py_index (row_regex p) row of
        Inl e \<Rightarrow> Inl e
      | Inr row_pat \<Rightarrow>
     (case check_regex row_pat row_str of
        Inl e \<Rightarrow> Inl e
      | Inr False \<Rightarrow> try_letters rec p letters g1 row col
      | Inr True \<Rightarrow>
     (case py_index (col_regex p) col of
        Inl e \<Rightarrow> Inl e
      | Inr col_pat \<Rightarrow>
     (case check_regex col_pat col_str of
        Inl e \<Rightarrow> Inl e
      | Inr False \<Rightarrow> try_letters rec p letters g1 row col
      | Inr True \<Rightarrow>
     (case rec g1 of
        Inl e \<Rightarrow> Inl e
      | Inr (True, g2) \<Rightarrow> Inr (True, g2)
      | Inr (False, g2) \<Rightarrow> try_letters rec p letters g2 row col))))))))"

text \<open>The recursive call is reached only when \<^verbatim>\<open>puzzle["row_regex"][row]\<close> did not
  raise.\<close>

lemma try_letters_cong [fundef_cong]:
  assumes "p = p'" "letters = letters'" "g = g'" "row = row'" "col = col'"
    and "\<And>g1. py_index (row_regex p') row' \<noteq> Inl IndexError \<Longrightarrow> rec g1 = rec' g1"
  shows "try_letters rec p letters g row col = try_letters rec' p' letters' g' row' col'"
  unfolding assms(1-5) using assms(6)
proof (induction letters' arbitrary: g')
  case Nil
  show ?case by simp
next
  case (Cons letter letters')
  show ?case
  proof (cases "py_index (row_regex p') row'")
    case (Inl e)
    then show ?thesis
      by (simp split: sum.splits)
  next
    case (Inr pat)
    then have "rec g1 = rec' g1" for g1
      using Cons.prems by simp
    then show ?thesis
      using Cons.IH Cons.prems by (simp split: sum.splits bool.splits prod.splits)
  qed
qed

definition next_row :: "int \<Rightarrow> int \<Rightarrow> int \<Rightarrow> int" where
  "next_row n row col = row + (col + 1) div n"

definition next_col :: "int \<Rightarrow> int \<Rightarrow> int" where
  "next_col n col = (col + 1) mod n"

text \<open>The columns that \<open>next_col\<close> produces: \<open>0 \<le> col < n\<close> for a positive size, and
  \<open>n < col \<le> 0\<close> for a negative one (Python's \<^verbatim>\<open>%\<close> takes the sign of the divisor).\<close>

definition col_settled :: "int \<Rightarrow> int \<Rightarrow> bool" where
  "col_settled n col = (if 0 < n then 0 \<le> col \<and> col < n else n < col \<and> col \<le> 0)"

lemma next_col_settled: "n \<noteq> 0 \<Longrightarrow> col_settled n (next_col n col)"
  by (simp add: col_settled_def next_col_def)

lemma next_pos_forward:
  assumes "0 < n" "0 \<le> col" "col < n"
  shows "next_row n row col = (if col + 1 = n then row + 1 else row)"
    and "next_col n col = (if col + 1 = n then 0 else col + 1)"
  using assms by (simp_all add: next_row_def next_col_def)

lemma next_pos_backward:
  assumes "n < 0" "n < col" "col \<le> 0"
  shows "next_row n row col = (if col = 0 then row - 1 else row)"
    and "next_col n col = (if col = 0 then n + 1 else col + 1)"
proof -
  have "(1::int) div n = - 1" "(1::int) mod n = 1 + n"
    using assms(1) by (simp_all add: div_pos_neg_trivial mod_pos_neg_trivial)
  moreover have "col < 0 \<Longrightarrow> (col + 1) div n = 0 \<and> (col + 1) mod n = col + 1"
    using assms by simp
  ultimately show "next_row n row col = (if col = 0 then row - 1 else row)"
    and "next_col n col = (if col = 0 then n + 1 else col + 1)"
    using assms(3) by (auto simp: next_row_def next_col_def)
qed

text \<open>Termination for every integer size and position: once the column is one that
  \<open>next_col\<close> produces, the position moves forward in row-major order for a positive
  size and backward for a negative one, and the recursive call is reached only while
  \<open>row\<close> indexes the row patterns.\<close>

lemma py_index_range:
  "py_index xs i \<noteq> Inl IndexError \<Longrightarrow> - int (length xs) \<le> i \<and> i < int (length xs)"
  by (auto simp: py_index_def py_norm_def Let_def split: if_splits)

function solve :: "'a puzzle_scheme \<Rightarrow> grid \<Rightarrow> int \<Rightarrow> int \<Rightarrow> error + bool \<times> grid" where
  "solve p g row col =
     (if row = size p then Inr (True, g)
      else if size p = 0 then Inl ZeroDivisionError
      else try_letters (\<lambda>g1. solve p g1 (next_row (size p) row col) (next_col (size p) col))
             p (alphabet p) g row col)"
  by pat_completeness auto
termination
proof (relation "measures
    [\<lambda>(p, g, row, col). if col_settled (size p) col then 0 else 1,
     \<lambda>(p, g, row, col).
        if 0 < size p then nat (int (length (row_regex p)) - row)
        else nat (row + int (length (row_regex p)) + 1),
     \<lambda>(p, g, row, col). if 0 < size p then nat (size p - col) else nat (- col)]",
    goal_cases)
  case 1
  show ?case by simp
next
  case (2 p g row col g1)
  let ?n = "size p"
  from 2 have n: "?n \<noteq> 0"
    and row: "- int (length (row_regex p)) \<le> row" "row < int (length (row_regex p))"
    using py_index_range by blast+
  have settled: "col_settled ?n (next_col ?n col)"
    using n by (rule next_col_settled)
  show ?case
  proof (cases "col_settled ?n col")
    case False
    with settled show ?thesis by simp
  next
    case True
    show ?thesis
    proof (cases "0 < ?n")
      case pos: True
      with True have c: "0 \<le> col" "col < ?n" by (simp_all add: col_settled_def)
      from next_pos_forward(1) [OF pos c, of row] next_pos_forward(2) [OF pos c] c row pos settled True show ?thesis
        by (auto split: if_splits)
    next
      case False
      with n have neg: "?n < 0" by simp
      with True have c: "?n < col" "col \<le> 0" by (simp_all add: col_settled_def)
      from next_pos_backward(1) [OF neg c, of row] next_pos_backward(2) [OF neg c] c row neg settled True show ?thesis
        by (auto split: if_splits)
    qed
  qed
qed

declare solve.simps [simp del]

text \<open>
  The same function under a bound \<open>d\<close> on the number of nested recursive calls below
  this one, in the manner of Python's recursion limit: a call that would go deeper
  raises \<^verbatim>\<open>RecursionError\<close>.
\<close>

fun solve_bounded ::
  "nat \<Rightarrow> 'a puzzle_scheme \<Rightarrow> grid \<Rightarrow> int \<Rightarrow> int \<Rightarrow> error + bool \<times> grid" where
  "solve_bounded d p g row col =
     (if row = size p then Inr (True, g)
      else if size p = 0 then Inl ZeroDivisionError
      else try_letters
             (\<lambda>g1. case d of
                     0 \<Rightarrow> Inl RecursionError
                   | Suc d' \<Rightarrow>
                       solve_bounded d' p g1 (next_row (size p) row col) (next_col (size p) col))
             p (alphabet p) g row col)"

declare solve_bounded.simps [simp del]

section \<open>\<^verbatim>\<open>main.py\<close> and its collaborators\<close>




section \<open>Grids that differ only by cells reset to empty\<close>




section \<open>Properties of the grid operations\<close>








subsection \<open>Assigning a cell\<close>

lemma py_norm_length: "length xs = length ys \<Longrightarrow> py_norm xs i = py_norm ys i"
  by (simp add: py_norm_def)

lemma set_cell_unfold:
  "set_cell g row col v =
     (let i = py_norm g row; cells = g ! nat i; j = py_norm cells col
      in if 0 \<le> i \<and> i < int (length g) \<and> 0 \<le> j \<and> j < int (length cells)
         then Inr (g[nat i := cells[nat j := v]]) else Inl IndexError)"
  by (simp add: set_cell_def py_index_def py_assign_def Let_def)









lemma py_index_member: "py_index xs i = Inr x \<Longrightarrow> x \<in> set xs"
  by (auto simp: py_index_def Let_def split: if_splits)

lemma py_index_error: "py_index xs i = Inl e \<Longrightarrow> e = IndexError"
  by (simp add: py_index_def Let_def split: if_splits)

lemma set_cell_error: "set_cell g row col v = Inl e \<Longrightarrow> e = IndexError"
  by (simp add: set_cell_unfold Let_def split: if_splits)

lemma row_string_error: "row_string g row = Inl e \<Longrightarrow> e = IndexError"
  by (auto simp: row_string_def split: sum.splits dest: py_index_error)

lemma col_cells_error: "col_cells g col rs = Inl e \<Longrightarrow> e = IndexError"
  by (induction rs arbitrary: e) (auto split: sum.splits dest: py_index_error)

lemma col_string_error: "col_string g n col = Inl e \<Longrightarrow> e = IndexError"
  by (auto simp: col_string_def split: sum.splits dest: col_cells_error)

subsection \<open>One pass of the loop\<close>

text \<open>What trying the first letter leads to: an error, the next letter on the grid with
  the letter written, the success of the recursive call, or the next letter on the grid
  that the failed recursive call left.\<close>

lemma try_letters_step:
  assumes "try_letters rec p (letter # letters) g row col = res"
  obtains
    (error) e where "res = Inl e" "e = IndexError \<or> (\<exists>g1. rec g1 = Inl e)
        \<or> (\<exists>pat\<in>set (row_regex p @ col_regex p). \<exists>text. check_regex pat text = Inl e)"
  | (skip) g1 where "set_cell g row col letter = Inr g1"
      "res = try_letters rec p letters g1 row col"
  | (found) g1 g2 where "py_index (row_regex p) row \<noteq> Inl IndexError"
      "rec g1 = Inr (True, g2)" "res = Inr (True, g2)"
  | (again) g1 g2 where "set_cell g row col letter = Inr g1"
      "py_index (row_regex p) row \<noteq> Inl IndexError"
      "rec g1 = Inr (False, g2)" "res = try_letters rec p letters g2 row col"
proof -
  note res = assms [symmetric]
  show ?thesis
  proof (cases "set_cell g row col letter")
    case (Inl e)
    then have "res = Inl e" "e = IndexError"
      by (simp_all add: res set_cell_error)
    then show ?thesis
      using error [of e] by blast
  next
    case g1: (Inr g1)
    show ?thesis
    proof (cases "row_string g1 row")
      case (Inl e)
      then have "res = Inl e" "e = IndexError"
        by (simp_all add: res g1 row_string_error)
      then show ?thesis
        using error [of e] by blast
    next
      case row_str: (Inr row_str)
      show ?thesis
      proof (cases "col_string g1 (size p) col")
        case (Inl e)
        then have "res = Inl e" "e = IndexError"
          by (simp_all add: res g1 row_str col_string_error)
        then show ?thesis
          using error [of e] by blast
      next
        case col_str: (Inr col_str)
        show ?thesis
        proof (cases "py_index (row_regex p) row")
          case (Inl e)
          then have "res = Inl e" "e = IndexError"
            by (simp_all add: res g1 row_str col_str py_index_error)
          then show ?thesis
            using error [of e] by blast
        next
          case row_pat: (Inr row_pat)
          then have in_range: "py_index (row_regex p) row \<noteq> Inl IndexError"
            by simp
          have row_mem: "row_pat \<in> set (row_regex p @ col_regex p)"
            using py_index_member [OF row_pat] by simp
          show ?thesis
          proof (cases "check_regex row_pat row_str")
            case (Inl e)
            then have "res = Inl e"
              by (simp add: res g1 row_str col_str row_pat)
            then show ?thesis
              using row_mem Inl error [of e] by blast
          next
            case (Inr row_ok)
            show ?thesis
            proof (cases row_ok)
              case False
              with Inr have "res = try_letters rec p letters g1 row col"
                by (simp add: res g1 row_str col_str row_pat)
              with g1 show ?thesis
                by (rule skip)
            next
              case True
              with Inr have row_ok: "check_regex row_pat row_str = Inr True"
                by simp
              note first = g1 row_str col_str row_pat row_ok
              show ?thesis
              proof (cases "py_index (col_regex p) col")
                case (Inl e)
                then have "res = Inl e" "e = IndexError"
                  by (simp_all add: res first py_index_error)
                then show ?thesis
                  using error [of e] by blast
              next
                case col_pat: (Inr col_pat)
                have col_mem: "col_pat \<in> set (row_regex p @ col_regex p)"
                  using py_index_member [OF col_pat] by simp
                show ?thesis
                proof (cases "check_regex col_pat col_str")
                  case (Inl e)
                  then have "res = Inl e"
                    by (simp add: res first col_pat)
                  then show ?thesis
                    using col_mem Inl error [of e] by blast
                next
                  case (Inr col_ok)
                  show ?thesis
                  proof (cases col_ok)
                    case False
                    with Inr have "res = try_letters rec p letters g1 row col"
                      by (simp add: res first col_pat)
                    with g1 show ?thesis
                      by (rule skip)
                  next
                    case True
                    with Inr have col_ok: "check_regex col_pat col_str = Inr True"
                      by simp
                    note second = col_pat col_ok
                    show ?thesis
                    proof (cases "rec g1")
                      case (Inl e)
                      then have "res = Inl e"
                        by (simp add: res first second)
                      then show ?thesis
                        using Inl error [of e] by blast
                    next
                      case (Inr r)
                      show ?thesis
                      proof (cases r)
                        case (Pair ok g2)
                        show ?thesis
                        proof (cases ok)
                          case True
                          with Inr Pair have call: "rec g1 = Inr (True, g2)"
                            by simp
                          then have "res = Inr (True, g2)"
                            by (simp add: res first second)
                          with in_range call show ?thesis
                            by (rule found)
                        next
                          case False
                          with Inr Pair have call: "rec g1 = Inr (False, g2)"
                            by simp
                          then have "res = try_letters rec p letters g2 row col"
                            by (simp add: res first second)
                          with g1 in_range call show ?thesis
                            by (rule again)
                        qed
                      qed
                    qed
                  qed
                qed
              qed
            qed
          qed
        qed
      qed
    qed
  qed
qed

subsection \<open>The loop as a whole\<close>


lemma try_letters_found:
  "try_letters rec p letters g row col = Inr (True, g') \<Longrightarrow> \<exists>g1. rec g1 = Inr (True, g')"
proof (induction letters arbitrary: g)
  case Nil
  then show ?case
    by (simp split: sum.splits)
next
  case (Cons letter letters)
  from Cons.prems show ?case
  proof (cases rule: try_letters_step)
    case (skip g1)
    from Cons.IH [OF skip(2) [symmetric]] show ?thesis .
  next
    case (found g1 g2)
    then show ?thesis by auto
  next
    case (again g1 g2)
    from Cons.IH [OF again(4) [symmetric]] show ?thesis .
  qed simp
qed

lemma try_letters_error:
  "try_letters rec p letters g row col = Inl e \<Longrightarrow>
     e = IndexError \<or> (\<exists>g1. rec g1 = Inl e)
     \<or> (\<exists>pat\<in>set (row_regex p @ col_regex p). \<exists>text. check_regex pat text = Inl e)"
proof (induction letters arbitrary: g)
  case Nil
  then show ?case
    by (auto split: sum.splits dest: set_cell_error)
next
  case (Cons letter letters)
  from Cons.prems show ?case
  proof (cases rule: try_letters_step)
    case (error e')
    then show ?thesis by simp
  next
    case (skip g1)
    from Cons.IH [OF skip(2) [symmetric]] show ?thesis .
  next
    case (again g1 g2)
    from Cons.IH [OF again(4) [symmetric]] show ?thesis .
  qed simp
qed

text \<open>The loop reads only the size and the patterns of the puzzle, and depends on the
  recursive call only through its results.\<close>

lemma try_letters_fields:
  assumes "size p = size q" "row_regex p = row_regex q" "col_regex p = col_regex q"
    and "\<And>g1. py_index (row_regex q) row \<noteq> Inl IndexError \<Longrightarrow> rec g1 = rec' g1"
  shows "try_letters rec p letters g row col = try_letters rec' q letters g row col"
proof (induction letters arbitrary: g)
  case Nil
  show ?case by simp
next
  case (Cons letter letters)
  show ?case
  proof (cases "py_index (row_regex q) row")
    case (Inl e)
    then show ?thesis
      by (simp add: assms(1-3) split: sum.splits)
  next
    case (Inr pat)
    then have "rec g1 = rec' g1" for g1
      using assms(4) by simp
    then show ?thesis
      using Cons.IH by (simp add: assms(1-3) split: sum.splits bool.splits prod.splits)
  qed
qed

section \<open>Properties of the solver\<close>


lemma check_regex_error:
  "check_regex pat text = Inl e \<Longrightarrow> re_compile pat = Inl e \<or> e = Unsupported"
  by (auto simp: check_regex_def re_match_def re_fullmatch_def split: if_splits sum.splits)

text \<open>The exceptions that can leave \<^verbatim>\<open>solve\<close>.\<close>

lemma solve_error:
  "solve p g row col = Inl e \<Longrightarrow>
     e = IndexError \<or> e = ZeroDivisionError \<or> e = Unsupported
     \<or> (\<exists>pat\<in>set (row_regex p @ col_regex p). re_compile pat = Inl e)"
proof (induction p g row col rule: solve.induct)
  case (1 p g row col)
  let ?rec = "\<lambda>g1. solve p g1 (next_row (size p) row col) (next_col (size p) col)"
  show ?case
  proof (cases "row \<noteq> size p \<and> size p \<noteq> 0")
    case False
    with "1.prems" show ?thesis
      by (auto simp: solve.simps [of p g row col] split: if_splits)
  next
    case True
    with "1.prems" have loop: "try_letters ?rec p (alphabet p) g row col = Inl e"
      by (simp add: solve.simps [of p g row col])
    from try_letters_error [OF loop] consider (index) "e = IndexError"
      | (deeper) g1 where "?rec g1 = Inl e"
      | (bad) pat str where "pat \<in> set (row_regex p @ col_regex p)" "check_regex pat str = Inl e"
      by blast
    then show ?thesis
    proof cases
      case index
      then show ?thesis by simp
    next
      case (deeper g1)
      show ?thesis
      proof (cases "py_index (row_regex p) row = Inl IndexError")
        case False
        with True deeper show ?thesis
          using "1.IH" by blast
      next
        case outside: True
        have "try_letters ?rec p (alphabet p) g row col
                = try_letters (\<lambda>g1. Inl IndexError) p (alphabet p) g row col"
          by (rule try_letters_fields) (simp_all add: outside)
        from try_letters_error [OF this [symmetric, THEN trans, OF loop]] show ?thesis
          by (auto dest: check_regex_error)
      qed
    next
      case (bad pat str)
      with check_regex_error [OF bad(2)] show ?thesis
        by blast
    qed
  qed
qed

section \<open>The pattern matcher\<close>

lemma str_contains_empty: "str_contains [] text"
  by (cases "text") simp_all

text \<open>
  C9. For every pattern and every text, \<^verbatim>\<open>check_regex\<close> returns the result of the
  start-anchored \<^verbatim>\<open>re.match\<close>: the test \<^verbatim>\<open>"" in text\<close> is true of every string, so
  the \<^verbatim>\<open>re.fullmatch\<close> branch is never taken.
\<close>

theorem check_regex_is_re_match:
  "str_contains [] text \<and> check_regex pattern text = re_match pattern text"
  by (simp add: check_regex_def str_contains_empty)

text \<open>
  C2. The claim has a text without an empty cell matched in its entirety. The row
  \<^verbatim>\<open>["A", "B"]\<close> has no empty cell; its string \<^verbatim>\<open>"AB"\<close> does not match the pattern
  \<^verbatim>\<open>"A"\<close> in its entirety, and \<^verbatim>\<open>check_regex\<close> accepts it.
\<close>

theorem check_regex_full_text_prefix_only:
  "list_all (\<lambda>c. c \<noteq> []) [''A'', ''B'']
   \<and> check_regex ''A'' (concat [''A'', ''B'']) = Inr True
   \<and> re_fullmatch ''A'' (concat [''A'', ''B'']) = Inr False"
  by code_simp

text \<open>
  C5. On the pattern \<^verbatim>\<open>"A+B"\<close>, the partial row \<^verbatim>\<open>["A", "A", ""]\<close> is rejected,
  although \<^verbatim>\<open>"AAB"\<close> extends it and is accepted: \<^verbatim>\<open>re.match\<close> asks for a prefix
  of the text that matches the whole pattern, not for a text that can still be
  completed. The partial row and the full text \<^verbatim>\<open>"AA"\<close> are the same string.
\<close>

theorem check_regex_partial_row_rejected:
  "check_regex ''A+B'' (concat [''A'', ''A'', '''']) = Inr False
   \<and> check_regex ''A+B'' ''AAB'' = Inr True
   \<and> check_regex ''A+B'' ''AA'' = Inr False
   \<and> concat [''A'', ''A'', ''''] = ''AA''"
  by code_simp

section \<open>The solver on the puzzles of the specification\<close>

text \<open>
  C1. With the alphabet \<^verbatim>\<open>("A", "B")\<close> and the pattern \<^verbatim>\<open>"A"\<close> for both rows and
  both columns of a 2 by 2 grid, \<^verbatim>\<open>solve\<close> returns success with every cell \<^verbatim>\<open>"A"\<close>;
  the row string \<^verbatim>\<open>"AA"\<close> does not match \<^verbatim>\<open>"A"\<close> in its entirety.
\<close>

theorem solve_success_without_full_match:
  "solve \<lparr>size = 2, alphabet = [''A'', ''B''], row_regex = [''A'', ''A''],
          col_regex = [''A'', ''A'']\<rparr> [['''', ''''], ['''', '''']] 0 0
     = Inr (True, [[''A'', ''A''], [''A'', ''A'']])
   \<and> row_string [[''A'', ''A''], [''A'', ''A'']] 0 = Inr ''AA''
   \<and> re_fullmatch ''A'' ''AA'' = Inr False"
  by code_simp

text \<open>
  C4. On the puzzle with size 2, alphabet \<^verbatim>\<open>("A", "B")\<close>, row patterns
  \<^verbatim>\<open>["AB", "BA"]\<close> and column patterns \<^verbatim>\<open>["AB", "BA"]\<close>, \<^verbatim>\<open>solve\<close> returns failure
  and leaves the grid empty: in the first cell both letters are rejected, the row string
  \<^verbatim>\<open>"A"\<close> having no prefix that matches \<^verbatim>\<open>"AB"\<close>. The grid of the claim does satisfy
  the four patterns.
\<close>

theorem solve_two_by_two_fails:
  "solve \<lparr>size = 2, alphabet = [''A'', ''B''], row_regex = [''AB'', ''BA''],
          col_regex = [''AB'', ''BA'']\<rparr> [['''', ''''], ['''', '''']] 0 0
     = Inr (False, [['''', ''''], ['''', '''']])
   \<and> check_regex ''AB'' ''A'' = Inr False
   \<and> check_regex ''AB'' ''B'' = Inr False
   \<and> re_fullmatch ''AB'' ''AB'' = Inr True
   \<and> re_fullmatch ''BA'' ''BA'' = Inr True"
  by code_simp



section \<open>Determinism, the search position and the depth of the recursion\<close>




lemma solve_bounded_zero_found:
  "(solve_bounded 0 p g row col = Inr (True, g')) = (row = size p \<and> g' = g)"
proof (cases "row = size p")
  case True
  have "solve_bounded 0 p g (size p) col = Inr (True, g)"
    by (simp add: solve_bounded.simps [of 0 p g "size p" col])
  with True show ?thesis
    by auto
next
  case False
  have "try_letters (\<lambda>g1. Inl RecursionError) p (alphabet p) g row col \<noteq> Inr (True, g')"
    using try_letters_found [of "\<lambda>g1. Inl RecursionError" p "alphabet p" g row col g']
    by auto
  with False show ?thesis
    by (simp add: solve_bounded.simps [of 0 p g row col])
qed

text \<open>
  C8. From a position with \<open>0 \<le> col < N\<close> the position of the recursive call is
  \<open>(row, col + 1)\<close>, or \<open>(row + 1, 0)\<close> when \<open>col + 1 = N\<close>, and that is the position at
  which \<^verbatim>\<open>solve\<close> calls itself. At \<open>row = N\<close> \<^verbatim>\<open>solve\<close> returns success with the
  grid as it was given; and a success reached without any recursive call (the call
  under the depth bound 0) happens exactly when \<open>row = N\<close>, with the grid untouched.
\<close>

theorem search_position_advances:
  assumes "row \<noteq> size p" "0 \<le> col" "col < size p"
  shows "(next_row (size p) row col, next_col (size p) col)
           = (if col + 1 = size p then (row + 1, 0) else (row, col + 1))
     \<and> solve p g row col
           = try_letters
               (\<lambda>g1. solve p g1 (if col + 1 = size p then row + 1 else row)
                       (if col + 1 = size p then 0 else col + 1))
               p (alphabet p) g row col
     \<and> solve p g (size p) c = Inr (True, g)
     \<and> (solve_bounded 0 p g r c = Inr (True, g')) = (r = size p \<and> g' = g)"
proof -
  have pos: "0 < size p"
    using assms(2,3) by simp
  note step = next_pos_forward [OF pos assms(2,3)]
  have "solve p g row col
          = try_letters (\<lambda>g1. solve p g1 (next_row (size p) row col) (next_col (size p) col))
              p (alphabet p) g row col"
    using assms(1) pos by (simp add: solve.simps [of p g row col])
  moreover have "solve p g (size p) c = Inr (True, g)"
    by (simp add: solve.simps [of p g "size p" c])
  ultimately show ?thesis
    using step(1) [of row] step(2) solve_bounded_zero_found [of p g r c g'] by simp
qed


theorem search_position_advances_witness:
  "(0::int) \<noteq> size \<lparr>size = 2, alphabet = [''A''], row_regex = [''A'', ''A''],
                      col_regex = [''A'', ''A'']\<rparr>
   \<and> (0::int) \<le> 1
   \<and> 1 < size \<lparr>size = 2, alphabet = [''A''], row_regex = [''A'', ''A''],
                col_regex = [''A'', ''A'']\<rparr>
   \<and> (next_row 2 0 1, next_col 2 1) = (1, 0)
   \<and> solve \<lparr>size = 2, alphabet = [''A''], row_regex = [''A'', ''A''],
            col_regex = [''A'', ''A'']\<rparr> [['''', ''''], ['''', '''']] 2 0
         = Inr (True, [['''', ''''], ['''', '''']])
   \<and> solve_bounded 0 \<lparr>size = 2, alphabet = [''A''], row_regex = [''A'', ''A''],
            col_regex = [''A'', ''A'']\<rparr> [['''', ''''], ['''', '''']] 2 0
         = Inr (True, [['''', ''''], ['''', '''']])"
proof -
  let ?p = "\<lparr>size = 2, alphabet = [''A''], row_regex = [''A'', ''A''],
             col_regex = [''A'', ''A'']\<rparr>"
  let ?g = "[['''', ''''], ['''', '''']]"
  have h: "(0::int) \<noteq> size ?p" "(0::int) \<le> 1" "1 < size ?p"
    by simp_all
  from search_position_advances [OF h, where g = ?g and c = 0 and r = 2 and g' = ?g]
  show ?thesis
    by simp
qed

lemma re_parse_error: "re_parse stack cs = Inl e \<Longrightarrow> e = ReError \<or> e = Unsupported"
  by (induction stack cs rule: re_parse.induct) (auto split: if_splits list.splits)

lemma solve_no_recursion_error: "solve p g row col \<noteq> Inl RecursionError"
  using solve_error [of p g row col RecursionError] re_parse_error [of _ _ RecursionError]
  by (auto simp: re_compile_def)

lemma row_major_bound:
  fixes n row col :: int
  assumes "0 \<le> row" "row < n" "col < n"
  shows "row * n + col < n * n"
proof -
  have "(row + 1) * n \<le> n * n"
    using assms(1,2) by (intro mult_right_mono) simp_all
  then show ?thesis
    using assms(3) by (simp add: algebra_simps)
qed

lemma solve_bounded_enough:
  assumes "0 \<le> row" "row \<le> size p" "0 \<le> col" "col < max (size p) 1"
    and "nat (size p * size p - (row * size p + col)) \<le> d"
  shows "solve_bounded d p g row col = solve p g row col"
  using assms
proof (induction d arbitrary: g row col)
  case 0
  show ?case
  proof (cases "row = size p")
    case True
    show ?thesis
      unfolding True
      by (simp add: solve.simps [of p g "size p" col] solve_bounded.simps [of 0 p g "size p" col])
  next
    case False
    with "0.prems" have "row < size p" "col < size p"
      by simp_all
    from row_major_bound [OF "0.prems"(1) this] "0.prems"(5) show ?thesis
      by simp
  qed
next
  case (Suc d)
  let ?n = "size p"
  show ?case
  proof (cases "row = ?n")
    case True
    show ?thesis
      unfolding True
      by (simp add: solve.simps [of p g "size p" col]
          solve_bounded.simps [of "Suc d" p g "size p" col])
  next
    case False
    with Suc.prems have row: "row < ?n" and col: "col < ?n" and pos: "0 < ?n"
      by simp_all
    note step = next_pos_forward [OF pos Suc.prems(3) col]
    let ?nr = "next_row ?n row col" and ?nc = "next_col ?n col"
    have idx: "?nr * ?n + ?nc = row * ?n + col + 1"
      using step(1) [of row] step(2) by (simp add: algebra_simps)
    have next_ok: "0 \<le> ?nr" "?nr \<le> ?n" "0 \<le> ?nc" "?nc < max ?n 1"
      using step(1) [of row] step(2) Suc.prems(1,3) row col by (simp_all split: if_splits)
    have "nat (?n * ?n - (?nr * ?n + ?nc)) \<le> d"
      using Suc.prems(5) unfolding idx by simp
    with next_ok have deeper: "solve_bounded d p g1 ?nr ?nc = solve p g1 ?nr ?nc" for g1
      by (rule Suc.IH)
    have "try_letters (\<lambda>g1. solve_bounded d p g1 ?nr ?nc) p (alphabet p) g row col
            = try_letters (\<lambda>g1. solve p g1 ?nr ?nc) p (alphabet p) g row col"
      by (rule try_letters_fields) (simp_all add: deeper)
    with False pos show ?thesis
      by (simp add: solve.simps [of p g row col] solve_bounded.simps [of "Suc d" p g row col])
  qed
qed

text \<open>
  C10. For a size \<open>N \<ge> 0\<close> and a start position with \<open>0 \<le> row \<le> N\<close> and
  \<open>0 \<le> col < max N 1\<close>, \<^verbatim>\<open>solve\<close> terminates within \<open>N * N\<close> nested calls: under a
  bound of \<open>N * N - (row * N + col)\<close> on the depth, the bound is never hit and the result
  is that of \<^verbatim>\<open>solve\<close>. Below \<open>row = N\<close> the recursive call is on the position next
  in row-major order, again inside the grid.
\<close>

theorem solve_terminates_within_depth:
  assumes "0 \<le> size p" "0 \<le> row" "row \<le> size p" "0 \<le> col" "col < max (size p) 1"
    and "nat (size p * size p - (row * size p + col)) \<le> d"
  shows "solve_bounded d p g row col = solve p g row col
     \<and> solve_bounded d p g row col \<noteq> Inl RecursionError
     \<and> (row < size p \<longrightarrow>
          next_row (size p) row col * size p + next_col (size p) col
            = row * size p + col + 1
          \<and> next_row (size p) row col \<le> size p
          \<and> 0 \<le> next_col (size p) col \<and> next_col (size p) col < size p)"
proof -
  have same: "solve_bounded d p g row col = solve p g row col"
    using assms(2-6) by (rule solve_bounded_enough)
  have "row < size p \<Longrightarrow>
          next_row (size p) row col * size p + next_col (size p) col
            = row * size p + col + 1
          \<and> next_row (size p) row col \<le> size p
          \<and> 0 \<le> next_col (size p) col \<and> next_col (size p) col < size p"
  proof -
    assume row: "row < size p"
    with assms(2,5) have pos: "0 < size p" and col: "col < size p"
      by simp_all
    from next_pos_forward(1) [OF pos assms(4) col, of row]
      next_pos_forward(2) [OF pos assms(4) col] row col pos assms(4)
    show ?thesis
      by (simp add: algebra_simps split: if_splits)
  qed
  with same solve_no_recursion_error [of p g row col] show ?thesis
    by simp
qed

theorem solve_terminates_within_depth_witness:
  "(0::int) \<le> size \<lparr>size = 2, alphabet = [''A'', ''B''], row_regex = [''A'', ''A''],
                     col_regex = [''A'', ''A'']\<rparr>
   \<and> nat (2 * 2 - (0 * 2 + 0)) \<le> (4::nat)
   \<and> solve_bounded 4 \<lparr>size = 2, alphabet = [''A'', ''B''], row_regex = [''A'', ''A''],
                        col_regex = [''A'', ''A'']\<rparr> [['''', ''''], ['''', '''']] 0 0
       = solve \<lparr>size = 2, alphabet = [''A'', ''B''], row_regex = [''A'', ''A''],
                col_regex = [''A'', ''A'']\<rparr> [['''', ''''], ['''', '''']] 0 0
   \<and> solve_bounded 4 \<lparr>size = 2, alphabet = [''A'', ''B''], row_regex = [''A'', ''A''],
                        col_regex = [''A'', ''A'']\<rparr> [['''', ''''], ['''', '''']] 0 0
       \<noteq> Inl RecursionError
   \<and> next_row 2 0 0 * 2 + next_col 2 0 = (1::int)"
proof -
  let ?p = "\<lparr>size = 2, alphabet = [''A'', ''B''], row_regex = [''A'', ''A''],
             col_regex = [''A'', ''A'']\<rparr>"
  have h: "0 \<le> size ?p" "(0::int) \<le> 0" "0 \<le> size ?p" "(0::int) \<le> 0" "0 < max (size ?p) 1"
    "nat (size ?p * size ?p - (0 * size ?p + 0)) \<le> 4"
    by simp_all
  from solve_terminates_within_depth [OF h, of "[['''', ''''], ['''', '''']]"]
  show ?thesis
    by auto
qed

section \<open>Ill-formed patterns\<close>




text \<open>What \<^verbatim>\<open>solve\<close> does when it is given an ill-formed pattern all the same:
  \<^verbatim>\<open>check_regex\<close> has no guard of its own, and the error of \<^verbatim>\<open>re.match\<close> leaves the
  search at the first check of that pattern.\<close>

lemma solve_unvalidated_pattern:
  "solve \<lparr>size = 1, alphabet = [''A''], row_regex = [''(A''], col_regex = [''A'']\<rparr>
     [['''']] 0 0 = Inl ReError"
  by code_simp



end
